theory Spec2Isabelle
  imports Main "HOL-Library.AList"
begin

section \<open>JavaScript values of a request\<close>

text \<open>
  The handlers of \<^verbatim>\<open>AuthController\<close> read \<^verbatim>\<open>req.body\<close>, \<^verbatim>\<open>req.params\<close> and
  \<^verbatim>\<open>req.user\<close>, all of type \<^verbatim>\<open>any\<close>. A value is therefore a JSON value or
  \<^verbatim>\<open>undefined\<close> (what reading a missing property gives). An object is its list of
  properties in insertion order. Numbers are integers here: the handlers only test a number
  for being zero and write the status codes and the role id.
\<close>

datatype jsval =
    JUndefined
  | JNull
  | JBool bool
  | JNum int
  | JStr string
  | JArr "jsval list"
  | JObj "(string \<times> jsval) list"

type_synonym obj = "(string \<times> jsval) list"

text \<open>The only exception the handlers' own code can raise: reading a property of
  \<^verbatim>\<open>undefined\<close> or \<^verbatim>\<open>null\<close>.\<close>

datatype error = TypeError

text \<open>\<^verbatim>\<open>!v\<close> is true for the falsy values: \<^verbatim>\<open>undefined\<close>, \<^verbatim>\<open>null\<close>, \<^verbatim>\<open>false\<close>,
  \<^verbatim>\<open>0\<close> and the empty string.\<close>

fun truthy :: "jsval \<Rightarrow> bool" where
  "truthy JUndefined = False"
| "truthy JNull = False"
| "truthy (JBool b) = b"
| "truthy (JNum n) = (n \<noteq> 0)"
| "truthy (JStr s) = (s \<noteq> [])"
| "truthy (JArr xs) = True"
| "truthy (JObj ps) = True"

text \<open>\<^verbatim>\<open>o.k\<close> on an object: the property's value, \<^verbatim>\<open>undefined\<close> when it is missing.\<close>

definition propOf :: "obj \<Rightarrow> string \<Rightarrow> jsval" where
  "propOf ps k = (case map_of ps k of None \<Rightarrow> JUndefined | Some v \<Rightarrow> v)"

text \<open>
  \<^verbatim>\<open>v.k\<close> and the destructuring \<^verbatim>\<open>const { k } = v\<close> on any value: a TypeError on
  \<^verbatim>\<open>undefined\<close> and \<^verbatim>\<open>null\<close>. The handlers read the keys \<^verbatim>\<open>user\<close>, \<^verbatim>\<open>email\<close> and
  \<^verbatim>\<open>password\<close> only, which no boolean, number, string or array has.
\<close>

fun getProp :: "jsval \<Rightarrow> string \<Rightarrow> error + jsval" where
  "getProp JUndefined k = Inl TypeError"
| "getProp JNull k = Inl TypeError"
| "getProp (JObj ps) k = Inr (propOf ps k)"
| "getProp v k = Inr JUndefined"

text \<open>
  The spread \<^verbatim>\<open>{ ...v }\<close>: the own properties of an object. Where \<^verbatim>\<open>registerUser\<close>
  spreads \<^verbatim>\<open>req.body.user\<close> that value has a truthy \<^verbatim>\<open>email\<close> property, so it is an
  object (lemma \<open>truthy_prop_is_object\<close>); the other cases are never reached.
\<close>

fun spread :: "jsval \<Rightarrow> obj" where
  "spread (JObj ps) = ps"
| "spread v = []"

section \<open>Request, response and the outcome of a handler\<close>

record request =
  params :: "(string \<times> string) list"
  body :: jsval
  user :: jsval

text \<open>\<^verbatim>\<open>const { hash } = req.params\<close>: route parameters are strings, a missing one is
  \<^verbatim>\<open>undefined\<close>.\<close>

definition param :: "request \<Rightarrow> string \<Rightarrow> jsval" where
  "param req k = (case map_of (params req) k of None \<Rightarrow> JUndefined | Some s \<Rightarrow> JStr s)"

record response =
  statusCode :: nat
  payload :: "jsval option"

text \<open>The response object a handler receives: status 200 and nothing sent.\<close>

definition res :: response where
  "res = \<lparr>statusCode = 200, payload = None\<rparr>"

definition status :: "nat \<Rightarrow> response \<Rightarrow> response" where
  "status n r = r\<lparr>statusCode := n\<rparr>"

definition json :: "jsval \<Rightarrow> response \<Rightarrow> response" where
  "json b r = r\<lparr>payload := Some b\<rparr>"

definition send :: "response \<Rightarrow> response" where
  "send r = r"

text \<open>A handler either sends a response or hands the caught error to \<^verbatim>\<open>next(err)\<close>.\<close>

datatype outcome = Sent response | Next error

text \<open>The body \<^verbatim>\<open>{ status: n, error: msg }\<close> of every error response.\<close>

definition errorBody :: "nat \<Rightarrow> string \<Rightarrow> jsval" where
  "errorBody n msg = JObj [(''status'', JNum (int n)), (''error'', JStr msg)]"

section \<open>Collaborators\<close>

text \<open>
  The services the controller calls are not part of the controller's source. The pure ones
  are parameters of the model: password hashing and verification, token creation, the
  format check that \<^verbatim>\<open>isEmail\<close> of the \<^verbatim>\<open>validator\<close> package makes on a string, the
  UUID generator (the \<open>n\<close>-th call of the process returns \<open>generateUuid n\<close>) and the
  configured GitHub client id.
  The stores, the cache and the mail sender are modelled below from their contracts. Every
  collaborator returns: an outage of a store or of the mail server, which the handlers would
  pass to \<^verbatim>\<open>next(err)\<close>, is outside this model.
\<close>

record services =
  hashPassword :: "jsval \<Rightarrow> string"
  verifyPassword :: "jsval \<Rightarrow> jsval \<Rightarrow> bool"
  createToken :: "jsval \<Rightarrow> string"
  emailFormat :: "string \<Rightarrow> bool"
  generateUuid :: "nat \<Rightarrow> string"
  githubId :: string


record invitation =
  email :: jsval
  hash :: jsval

text \<open>
  The state behind the collaborators: the rows of the user store, the rows of the invitation
  store, the cache entries, the invitation mails sent so far (address and hash) and the
  number of UUIDs generated so far.
\<close>

record world =
  users :: "obj list"
  invitations :: "invitation list"
  cache :: "(string \<times> jsval) list"
  outbox :: "(jsval \<times> jsval) list"
  uuidCount :: nat

text \<open>A \<^verbatim>\<open>where\<close> filter holds for a row when every property of the filter has the
  same value in the row.\<close>

definition matches :: "obj \<Rightarrow> obj \<Rightarrow> bool" where
  "matches flt row = list_all (\<lambda>(k, v). propOf row k = v) flt"

text \<open>The \<^verbatim>\<open>select\<close> option keeps the listed columns of a row.\<close>

definition project :: "string list \<Rightarrow> obj \<Rightarrow> obj" where
  "project cols row = filter (\<lambda>(k, v). k \<in> set cols) row"

text \<open>
  Modelled from the spec: the user store \<^verbatim>\<open>UserService\<close>, whose source is missing, with
  the contract \<^verbatim>\<open>read(filter) -> User|undefined\<close>, \<^verbatim>\<open>save(partial) -> User\<close>,
  \<^verbatim>\<open>delete(User) -> void\<close>. \<open>userRead\<close> returns the first row the filter holds for,
  projected to the selected columns if any; \<open>userSave\<close> appends the object and returns it;
  \<open>userDelete\<close> removes the row.
\<close>

definition userRead :: "string list option \<Rightarrow> obj \<Rightarrow> world \<Rightarrow> obj option" where
  "userRead sel flt w =
     (case find (matches flt) (users w) of
        None \<Rightarrow> None
      | Some row \<Rightarrow> Some (case sel of None \<Rightarrow> row | Some cols \<Rightarrow> project cols row))"

definition userSave :: "obj \<Rightarrow> world \<Rightarrow> obj \<times> world" where
  "userSave u w = (u, w\<lparr>users := users w @ [u]\<rparr>)"

definition userDelete :: "obj \<Rightarrow> world \<Rightarrow> world" where
  "userDelete u w = w\<lparr>users := removeAll u (users w)\<rparr>"

text \<open>
  Modelled from the spec: the invitation store \<^verbatim>\<open>UserInvitationService\<close>, whose source
  is missing, with the contract \<^verbatim>\<open>readUserInvitation(filter) -> UserInvitation|undefined\<close>,
  \<^verbatim>\<open>saveUserInvitation(inv)\<close>, \<^verbatim>\<open>deleteUserInvitation(inv)\<close> over invitations
  \<^verbatim>\<open>{email, hash}\<close>. The filter is \<^verbatim>\<open>{ hash }\<close> or \<^verbatim>\<open>{ hash, email }\<close>.
\<close>

datatype invFilter = ByHash jsval | ByHashEmail jsval jsval

fun invMatches :: "invFilter \<Rightarrow> invitation \<Rightarrow> bool" where
  "invMatches (ByHash h) i = (hash i = h)"
| "invMatches (ByHashEmail h e) i = (hash i = h \<and> email i = e)"

definition readUserInvitation :: "invFilter \<Rightarrow> world \<Rightarrow> invitation option" where
  "readUserInvitation flt w = find (invMatches flt) (invitations w)"


definition deleteUserInvitation :: "invitation \<Rightarrow> world \<Rightarrow> world" where
  "deleteUserInvitation i w = w\<lparr>invitations := removeAll i (invitations w)\<rparr>"

text \<open>Modelled from the spec: the cache \<^verbatim>\<open>CacheService\<close>, whose source is missing, with
  the contract \<^verbatim>\<open>delete(key)\<close>.\<close>

definition cacheDelete :: "string \<Rightarrow> world \<Rightarrow> world" where
  "cacheDelete k w = w\<lparr>cache := AList.delete k (cache w)\<rparr>"



section \<open>The handlers of AuthController\<close>

text \<open>\<^verbatim>\<open>getUserInvitation(hash, email?)\<close>: the filter has the email unless it is
  \<^verbatim>\<open>undefined\<close>.\<close>

definition getUserInvitation :: "jsval \<Rightarrow> jsval \<Rightarrow> world \<Rightarrow> invitation option" where
  "getUserInvitation h e w =
     readUserInvitation (if e = JUndefined then ByHash h else ByHashEmail h e) w"

definition signinUser :: "services \<Rightarrow> request \<Rightarrow> world \<Rightarrow> outcome \<times> world" where
  "signinUser sv req w =
     (case getProp (body req) ''user'' of
        Inl err \<Rightarrow> (Next err, w)
      | Inr u \<Rightarrow>
     (case getProp u ''email'' of
        Inl err \<Rightarrow> (Next err, w)
      | Inr em \<Rightarrow>
     (case getProp u ''password'' of
        Inl err \<Rightarrow> (Next err, w)
      | Inr pw \<Rightarrow>
        if \<not> truthy em \<or> \<not> truthy pw
        then (Sent (json (errorBody 400 ''Invalid request'') (status 400 res)), w)
        else
          (case userRead (Some [''id'', ''email'', ''firstname'', ''lastname'', ''password''])
                  [(''email'', em), (''active'', JBool True)] w of
             None \<Rightarrow>
               (Sent (json (errorBody 401 ''Wrong email or password'') (status 401 res)), w)
           | Some usr \<Rightarrow>
               if \<not> verifyPassword sv pw (propOf usr ''password'')
               then (Sent (json (errorBody 401 ''Wrong email or password'') (status 401 res)), w)
               else
                 let token = createToken sv (propOf usr ''id'');
                     usr' = AList.delete ''password'' usr
                 in (Sent (json (JObj [(''status'', JNum (int (statusCode res))),
                                       (''data'', JObj [(''user'', JObj usr'),
                                                        (''token'', JStr token)])]) res), w)))))"

definition validateRegistrationHash :: "services \<Rightarrow> request \<Rightarrow> world \<Rightarrow> outcome \<times> world" where
  "validateRegistrationHash sv req w =
     (let h = param req ''hash'' in
      if \<not> truthy h
      then (Sent (json (errorBody 400 ''Invalid request'') (status 400 res)), w)
      else
        (case getUserInvitation h JUndefined w of
           Some invit \<Rightarrow> (Sent (send (status 204 res)), w)
         | None \<Rightarrow> (Sent (json (errorBody 403 ''Invalid hash'') (status 403 res)), w)))"

text \<open>
  Lines 129 to 145 of \<^verbatim>\<open>registerUser\<close>: save the new user, clear the user cache, delete
  the password of the returned object, delete the invitation. The returned object is a local
  of the handler; it is part of the result here so that it can be spoken about.
\<close>

definition registerUser_create ::
    "services \<Rightarrow> jsval \<Rightarrow> jsval \<Rightarrow> invitation \<Rightarrow> world \<Rightarrow> obj \<times> world" where
  "registerUser_create sv u pw invit w =
     (let (newUser, w1) =
            userSave
              (AList.update ''userRole'' (JObj [(''id'', JNum 1), (''name'', JStr ''User'')])
                (AList.update ''password'' (JStr (hashPassword sv pw)) (spread u))) w;
          w2 = cacheDelete ''user'' w1;
          newUser' = AList.delete ''password'' newUser;
          w3 = deleteUserInvitation invit w2
      in (newUser', w3))"

definition registerUser :: "services \<Rightarrow> request \<Rightarrow> world \<Rightarrow> outcome \<times> world" where
  "registerUser sv req w =
     (let h = param req ''hash'' in
      case getProp (body req) ''user'' of
        Inl err \<Rightarrow> (Next err, w)
      | Inr u \<Rightarrow>
     (case getProp u ''email'' of
        Inl err \<Rightarrow> (Next err, w)
      | Inr em \<Rightarrow>
     (case getProp u ''password'' of
        Inl err \<Rightarrow> (Next err, w)
      | Inr pw \<Rightarrow>
        if \<not> truthy em \<or> \<not> truthy u
        then (Sent (json (errorBody 400 ''Invalid request'') (status 400 res)), w)
        else
          (case getUserInvitation h em w of
             None \<Rightarrow> (Sent (json (errorBody 403 ''Invalid hash'') (status 403 res)), w)
           | Some invit \<Rightarrow>
               (case userRead None [(''email'', em)] w of
                  Some usr \<Rightarrow>
                    (Sent (json (errorBody 400 ''Email is already taken'') (status 400 res)), w)
                | None \<Rightarrow>
                    (Sent (send (status 204 res)),
                     snd (registerUser_create sv u pw invit w)))))))"


definition unregisterUser :: "services \<Rightarrow> request \<Rightarrow> world \<Rightarrow> outcome \<times> world" where
  "unregisterUser sv req w =
     (case getProp (user req) ''email'' of
        Inl err \<Rightarrow> (Next err, w)
      | Inr em \<Rightarrow>
        if \<not> truthy em
        then (Sent (json (errorBody 400 ''Invalid request'') (status 400 res)), w)
        else
          (case userRead None [(''email'', em)] w of
             None \<Rightarrow> (Sent (json (errorBody 404 ''User not found'') (status 404 res)), w)
           | Some usr \<Rightarrow>
               (Sent (send (status 204 res)), cacheDelete ''user'' (userDelete usr w))))"

section \<open>The query strings of Node's querystring module\<close>

text \<open>
  The controller imports \<^verbatim>\<open>stringify\<close> and \<^verbatim>\<open>parse\<close> from Node's \<^verbatim>\<open>querystring\<close>. A
  string is its sequence of UTF-8 bytes. \<^verbatim>\<open>querystring.escape\<close> keeps the letters, the
  digits and \<^verbatim>\<open>- _ . ! ~ * ' ( )\<close> and writes every other byte as \<^verbatim>\<open>%XX\<close> in upper case
  hexadecimal; \<^verbatim>\<open>stringify\<close> joins the escaped \<^verbatim>\<open>key=value\<close> pairs with \<^verbatim>\<open>&\<close>.
  \<^verbatim>\<open>parse\<close> splits at \<^verbatim>\<open>&\<close>, splits every non-empty part at its first \<^verbatim>\<open>=\<close>, reads
  \<^verbatim>\<open>+\<close> as a space and decodes every well-formed \<^verbatim>\<open>%XX\<close>; its result is the list
  of pairs in their order (its limit of 1000 keys is left out).
\<close>

definition noEscape :: "char \<Rightarrow> bool" where
  "noEscape c =
     (c \<in> set (''ABCDEFGHIJKLMNOPQRSTUVWXYZabcdefghijklmnopqrstuvwxyz0123456789-_.!~*()'' @
               [CHR 0x27]))"

definition hexDigit :: "nat \<Rightarrow> char" where
  "hexDigit n = ''0123456789ABCDEF'' ! n"

definition escapeChar :: "char \<Rightarrow> string" where
  "escapeChar c =
     (if noEscape c then [c]
      else [CHR ''%'', hexDigit (of_char c div 16), hexDigit (of_char c mod 16)])"

definition escape :: "string \<Rightarrow> string" where
  "escape s = concat (map escapeChar s)"

fun stringify :: "(string \<times> string) list \<Rightarrow> string" where
  "stringify [] = []"
| "stringify [(k, v)] = escape k @ ''='' @ escape v"
| "stringify ((k, v) # kvs) = escape k @ ''='' @ escape v @ ''&'' @ stringify kvs"

definition hexVal :: "char \<Rightarrow> nat option" where
  "hexVal c = map_of (zip ''0123456789ABCDEFabcdef'' ([0..<16] @ [10..<16])) c"

fun unescape :: "string \<Rightarrow> string" where
  "unescape (c # a # b # s) =
     (if c = CHR ''%'' then
        (case (hexVal a, hexVal b) of
           (Some x, Some y) \<Rightarrow> char_of (16 * x + y) # unescape s
         | _ \<Rightarrow> c # unescape (a # b # s))
      else (if c = CHR ''+'' then CHR '' '' else c) # unescape (a # b # s))"
| "unescape (c # s) = (if c = CHR ''+'' then CHR '' '' else c) # unescape s"
| "unescape [] = []"

fun splitOn :: "char \<Rightarrow> string \<Rightarrow> string list" where
  "splitOn d [] = [[]]"
| "splitOn d (c # s) =
     (if c = d then [] # splitOn d s
      else (case splitOn d s of [] \<Rightarrow> [[c]] | x # xs \<Rightarrow> (c # x) # xs))"

definition parse :: "string \<Rightarrow> (string \<times> string) list" where
  "parse q =
     map (\<lambda>kv. (unescape (takeWhile (\<lambda>c. c \<noteq> CHR ''='') kv),
                unescape (drop 1 (dropWhile (\<lambda>c. c \<noteq> CHR ''='') kv))))
       (filter (\<lambda>kv. kv \<noteq> []) (splitOn (CHR ''&'') q))"

definition handleGitHubAuth :: "services \<Rightarrow> request \<Rightarrow> world \<Rightarrow> outcome \<times> world" where
  "handleGitHubAuth sv req w =
     (let url = ''https://github.com/login/oauth/authorize?'' @
                stringify [(''client_id'', githubId sv), (''scope'', ''user:email'')]
      in (Sent (json (JObj [(''data'', JStr url),
                            (''status'', JNum (int (statusCode res)))]) res), w))"

section \<open>Sample data\<close>

text \<open>Services, a store with one active user and two open invitations, and requests against
  them, on which the theorems below are instantiated.\<close>

definition sv0 :: services where
  "sv0 = \<lparr>hashPassword = (\<lambda>p. ''bcrypt'' @ (case p of JStr s \<Rightarrow> s | _ \<Rightarrow> [])),
          verifyPassword = (\<lambda>p h. case p of JStr s \<Rightarrow> h = JStr (''bcrypt'' @ s) | _ \<Rightarrow> False),
          createToken = (\<lambda>i. case i of JNum n \<Rightarrow> replicate (nat n) CHR ''t'' | _ \<Rightarrow> []),
          emailFormat = (\<lambda>s. CHR ''@'' \<in> set s),
          generateUuid = (\<lambda>n. replicate (Suc n) CHR ''u''),
          githubId = ''Iv1.9f''\<rparr>"

definition alice :: obj where
  "alice = [(''id'', JNum 2), (''email'', JStr ''a@x.com''), (''firstname'', JStr ''A''),
            (''lastname'', JStr ''X''), (''password'', JStr ''bcryptp1''),
            (''active'', JBool True)]"

definition w0 :: world where
  "w0 = \<lparr>users = [alice],
         invitations = [\<lparr>email = JStr ''b@x.com'', hash = JStr ''u''\<rparr>,
                        \<lparr>email = JStr ''a@x.com'', hash = JStr ''uu''\<rparr>],
         cache = [(''user'', JArr [JObj alice])],
         outbox = [(JStr ''b@x.com'', JStr ''u''), (JStr ''a@x.com'', JStr ''uu'')],
         uuidCount = 2\<rparr>"

definition credentials :: "string \<Rightarrow> string \<Rightarrow> jsval" where
  "credentials e p = JObj [(''user'', JObj [(''email'', JStr e), (''password'', JStr p)])]"

definition reqWith :: "string \<Rightarrow> jsval \<Rightarrow> request" where
  "reqWith h b = \<lparr>params = [(''hash'', h)], body = b, user = JUndefined\<rparr>"

section \<open>Facts about values and stores\<close>

lemmas resp_defs = res_def status_def json_def send_def

lemmas sample_defs = sv0_def alice_def w0_def credentials_def reqWith_def

lemma truthy_prop_is_object:
  "getProp u k = Inr v \<Longrightarrow> truthy v \<Longrightarrow> \<exists>ps. u = JObj ps"
  by (cases u) auto

lemma find_None_set: "(find P xs = None) = (\<forall>x\<in>set xs. \<not> P x)"
  by (induction xs) auto

lemma find_Some_set: "find P xs = Some x \<Longrightarrow> x \<in> set xs \<and> P x"
  by (induction xs) (auto split: if_splits)

lemma map_of_project:
  "map_of (project cols row) k = (if k \<in> set cols then map_of row k else None)"
  by (induction row) (auto simp: project_def)

lemma propOf_project: "k \<in> set cols \<Longrightarrow> propOf (project cols row) k = propOf row k"
  by (simp add: propOf_def map_of_project)

text \<open>Reading users by email: nothing is found exactly when no row has the email.\<close>

lemma userRead_None_iff:
  "(userRead sel [(''email'', em)] w = None) =
   (\<forall>row\<in>set (users w). propOf row ''email'' \<noteq> em)"
proof -
  have "(userRead sel [(''email'', em)] w = None) =
        (find (matches [(''email'', em)]) (users w) = None)"
    by (simp add: userRead_def split: option.splits)
  then show ?thesis
    by (simp add: find_None_set matches_def)
qed

lemma userRead_email_Some:
  "userRead None [(''email'', em)] w = Some usr \<Longrightarrow>
   usr \<in> set (users w) \<and> propOf usr ''email'' = em"
  by (auto simp: userRead_def matches_def split: option.splits dest: find_Some_set)

lemma userRead_select:
  "userRead (Some cols) flt w = map_option (project cols) (userRead None flt w)"
  by (simp add: userRead_def split: option.splits)

lemma userRead_active_None_iff:
  "(userRead None [(''email'', em), (''active'', JBool True)] w = None) =
   (\<forall>row\<in>set (users w). propOf row ''email'' \<noteq> em \<or> propOf row ''active'' \<noteq> JBool True)"
proof -
  have "(userRead None [(''email'', em), (''active'', JBool True)] w = None) =
        (find (matches [(''email'', em), (''active'', JBool True)]) (users w) = None)"
    by (simp add: userRead_def split: option.splits)
  then show ?thesis
    by (simp add: find_None_set matches_def)
qed

lemma userRead_active_Some:
  assumes "userRead None [(''email'', em), (''active'', JBool True)] w = Some row"
  shows "row \<in> set (users w) \<and> propOf row ''email'' = em \<and> propOf row ''active'' = JBool True"
proof -
  have "find (matches [(''email'', em), (''active'', JBool True)]) (users w) = Some row"
    using assms by (simp add: userRead_def split: option.splits)
  from find_Some_set [OF this] show ?thesis
    by (simp add: matches_def)
qed

text \<open>When one row only is active with the email, the store returns that row.\<close>

lemma userRead_active_unique:
  assumes "row \<in> set (users w)"
      and "propOf row ''email'' = em" and "propOf row ''active'' = JBool True"
      and "\<forall>r\<in>set (users w).
             propOf r ''email'' = em \<and> propOf r ''active'' = JBool True \<longrightarrow> r = row"
  shows "userRead None [(''email'', em), (''active'', JBool True)] w = Some row"
proof (cases "userRead None [(''email'', em), (''active'', JBool True)] w")
  case None
  then show ?thesis
    using assms(1-3) by (simp add: userRead_active_None_iff)
next
  case (Some r)
  then show ?thesis
    using userRead_active_Some [OF Some] assms(4) by blast
qed

text \<open>An invitation is determined by its email and hash, so a lookup by both finds that
  invitation or nothing.\<close>

lemma invitation_eq: "hash i = h \<Longrightarrow> email i = em \<Longrightarrow> i = \<lparr>email = em, hash = h\<rparr>"
  by (cases i) simp

lemma getUserInvitation_email:
  assumes "em \<noteq> JUndefined"
  shows "getUserInvitation h em w =
     (if \<lparr>email = em, hash = h\<rparr> \<in> set (invitations w)
      then Some \<lparr>email = em, hash = h\<rparr> else None)"
proof (cases "find (invMatches (ByHashEmail h em)) (invitations w)")
  case None
  then have "\<lparr>email = em, hash = h\<rparr> \<notin> set (invitations w)"
    by (auto simp: find_None_set)
  with None assms show ?thesis
    by (simp add: getUserInvitation_def readUserInvitation_def)
next
  case (Some i)
  then have "i \<in> set (invitations w)" and "i = \<lparr>email = em, hash = h\<rparr>"
    using find_Some_set [OF Some] by (auto intro: invitation_eq)
  with Some assms show ?thesis
    by (simp add: getUserInvitation_def readUserInvitation_def)
qed

lemma getUserInvitation_hash:
  "(getUserInvitation h JUndefined w = None) = (\<forall>i\<in>set (invitations w). hash i \<noteq> h)"
  by (simp add: getUserInvitation_def readUserInvitation_def find_None_set)

text \<open>The sample requests: a body \<^verbatim>\<open>{ user: { email, password } }\<close> destructures to its
  two fields.\<close>

lemma credentials_user:
  "getProp (body (reqWith h (credentials e p))) ''user'' =
     Inr (JObj [(''email'', JStr e), (''password'', JStr p)])"
  by (simp add: reqWith_def credentials_def propOf_def)

lemma credentials_email:
  "getProp (JObj [(''email'', JStr e), (''password'', JStr p)]) ''email'' = Inr (JStr e)"
  by (simp add: propOf_def)

lemma credentials_password:
  "getProp (JObj [(''email'', JStr e), (''password'', JStr p)]) ''password'' = Inr (JStr p)"
  by (simp add: propOf_def)

section \<open>Escaping and parsing query strings\<close>

text \<open>What \<open>escape\<close> writes, \<open>unescape\<close> reads back; escaped text has no \<^verbatim>\<open>&\<close> and no
  \<^verbatim>\<open>=\<close>, so \<open>parse\<close> recovers the pairs \<open>stringify\<close> was given.\<close>

lemma hexVal_hexDigit: "n < 16 \<Longrightarrow> hexVal (hexDigit n) = Some n"
proof -
  have "\<forall>n\<in>set [0..<16]. hexVal (hexDigit n) = Some n"
    by code_simp
  then show "n < 16 \<Longrightarrow> hexVal (hexDigit n) = Some n" by simp
qed

lemma hexDigit_plain: "n < 16 \<Longrightarrow> hexDigit n \<in> set ''0123456789ABCDEF''"
  by (simp only: hexDigit_def) (rule nth_mem, simp)

lemma unescape_plain:
  "c \<noteq> CHR ''%'' \<Longrightarrow> c \<noteq> CHR ''+'' \<Longrightarrow> unescape (c # t) = c # unescape t"
  by (cases "(c # t)" rule: unescape.cases) auto

lemma noEscape_plain: "noEscape c \<Longrightarrow> c \<noteq> CHR ''%'' \<and> c \<noteq> CHR ''+'' \<and> c \<noteq> CHR ''&'' \<and> c \<noteq> CHR ''=''"
  by (auto simp: noEscape_def)

lemma of_char_nibble: "(of_char (c::char) :: nat) div 16 < 16"
proof -
  have "(of_char c :: nat) < 256" by simp
  then show ?thesis by arith
qed

lemma unescape_escapeChar: "unescape (escapeChar c @ t) = c # unescape t"
proof (cases "noEscape c")
  case True
  then show ?thesis
    using noEscape_plain [OF True] by (simp add: escapeChar_def unescape_plain)
next
  case False
  then show ?thesis
    by (simp add: escapeChar_def hexVal_hexDigit of_char_nibble)
qed

lemma unescape_escape_append: "unescape (escape s @ t) = s @ unescape t"
  by (induction s) (simp_all add: escape_def unescape_escapeChar)

lemma unescape_escape: "unescape (escape s) = s"
  using unescape_escape_append [of s "[]"] by simp

lemma escapeChar_safe:
  "x \<in> set (escapeChar c) \<Longrightarrow> x \<noteq> CHR ''&'' \<and> x \<noteq> CHR ''=''"
proof (cases "noEscape c")
  case True
  assume "x \<in> set (escapeChar c)"
  with True show ?thesis using noEscape_plain [of c] by (simp add: escapeChar_def)
next
  case False
  assume x: "x \<in> set (escapeChar c)"
  have "hexDigit (of_char c div 16) \<in> set ''0123456789ABCDEF''"
    by (rule hexDigit_plain) (rule of_char_nibble)
  moreover have "hexDigit (of_char c mod 16) \<in> set ''0123456789ABCDEF''"
    by (rule hexDigit_plain) simp
  ultimately have "x \<in> set ''%0123456789ABCDEF''"
    using x False by (auto simp: escapeChar_def)
  then show ?thesis by auto
qed

lemma escape_safe: "x \<in> set (escape s) \<Longrightarrow> x \<noteq> CHR ''&'' \<and> x \<noteq> CHR ''=''"
  by (auto simp: escape_def dest: escapeChar_safe)

lemma splitOn_plain: "d \<notin> set a \<Longrightarrow> splitOn d a = [a]"
  by (induction a) (auto split: list.splits)

lemma splitOn_append: "d \<notin> set a \<Longrightarrow> splitOn d (a @ d # s) = a # splitOn d s"
  by (induction a) (auto split: list.splits)

lemma segment_safe: "CHR ''&'' \<notin> set (escape k @ ''='' @ escape v)"
  using escape_safe [of "CHR ''&''"] by auto

lemma takeWhile_segment:
  "takeWhile (\<lambda>c. c \<noteq> CHR ''='') (escape k @ ''='' @ escape v) = escape k"
proof -
  have "\<forall>x\<in>set (escape k). x \<noteq> CHR ''=''"
    using escape_safe by blast
  then show ?thesis by (simp add: takeWhile_tail)
qed

lemma dropWhile_segment:
  "drop 1 (dropWhile (\<lambda>c. c \<noteq> CHR ''='') (escape k @ ''='' @ escape v)) = escape v"
proof -
  have "\<And>x. x \<in> set (escape k) \<Longrightarrow> x \<noteq> CHR ''=''"
    using escape_safe by blast
  then show ?thesis by (simp add: dropWhile_append2)
qed

lemma parse_single: "parse (escape k @ ''='' @ escape v) = [(k, v)]"
proof -
  define seg where "seg = escape k @ ''='' @ escape v"
  have "splitOn (CHR ''&'') seg = [seg]"
    unfolding seg_def by (rule splitOn_plain) (rule segment_safe)
  moreover have "seg \<noteq> []"
    by (simp add: seg_def)
  moreover have "unescape (takeWhile (\<lambda>c. c \<noteq> CHR ''='') seg) = k"
    unfolding seg_def by (simp only: takeWhile_segment unescape_escape)
  moreover have "unescape (drop 1 (dropWhile (\<lambda>c. c \<noteq> CHR ''='') seg)) = v"
    unfolding seg_def by (simp only: dropWhile_segment unescape_escape)
  ultimately have "parse seg = [(k, v)]"
    by (simp add: parse_def)
  then show ?thesis by (simp only: seg_def)
qed

lemma parse_cons:
  "parse (escape k @ ''='' @ escape v @ ''&'' @ q) = (k, v) # parse q"
proof -
  define seg where "seg = escape k @ ''='' @ escape v"
  have "splitOn (CHR ''&'') (seg @ CHR ''&'' # q) = seg # splitOn (CHR ''&'') q"
    unfolding seg_def by (rule splitOn_append) (rule segment_safe)
  moreover have "seg \<noteq> []"
    by (simp add: seg_def)
  moreover have "unescape (takeWhile (\<lambda>c. c \<noteq> CHR ''='') seg) = k"
    unfolding seg_def by (simp only: takeWhile_segment unescape_escape)
  moreover have "unescape (drop 1 (dropWhile (\<lambda>c. c \<noteq> CHR ''='') seg)) = v"
    unfolding seg_def by (simp only: dropWhile_segment unescape_escape)
  ultimately have "parse (seg @ CHR ''&'' # q) = (k, v) # parse q"
    by (simp add: parse_def)
  moreover have "seg @ CHR ''&'' # q = escape k @ ''='' @ escape v @ ''&'' @ q"
    by (simp add: seg_def)
  ultimately show ?thesis by simp
qed

lemma parse_stringify: "parse (stringify kvs) = kvs"
proof (induction kvs rule: stringify.induct)
  case 1
  show ?case by (simp add: parse_def)
next
  case (2 k v)
  show ?case using parse_single [of k v] by simp
next
  case (3 k v kv kvs)
  show ?case using parse_cons [of k v "stringify (kv # kvs)"] "3.IH" by simp
qed

lemma escape_client_id: "escape ''client_id'' = ''client_id''"
  by code_simp

lemma escape_scope: "escape ''scope'' = ''scope''"
  by code_simp

lemma escape_user_email: "escape ''user:email'' = ''user%3Aemail''"
  by code_simp

section \<open>Registration\<close>

text \<open>
  Every run of \<^verbatim>\<open>registerUser\<close> on a user payload with a truthy email: the invitation
  for the hash and the email is looked up first, then the owner of the email, and only then
  the user is created.
\<close>

lemma registerUser_run:
  assumes u: "getProp (body req) ''user'' = Inr u"
      and em: "getProp u ''email'' = Inr em"
      and pw: "getProp u ''password'' = Inr pw"
      and t: "truthy em"
  shows "registerUser sv req w =
     (if \<lparr>email = em, hash = param req ''hash''\<rparr> \<notin> set (invitations w)
      then (Sent \<lparr>statusCode = 403, payload = Some (errorBody 403 ''Invalid hash'')\<rparr>, w)
      else if \<exists>row\<in>set (users w). propOf row ''email'' = em
      then (Sent \<lparr>statusCode = 400, payload = Some (errorBody 400 ''Email is already taken'')\<rparr>, w)
      else (Sent \<lparr>statusCode = 204, payload = None\<rparr>,
            w\<lparr>users := users w @
                 [AList.update ''userRole'' (JObj [(''id'', JNum 1), (''name'', JStr ''User'')])
                    (AList.update ''password'' (JStr (hashPassword sv pw)) (spread u))],
              cache := AList.delete ''user'' (cache w),
              invitations := removeAll \<lparr>email = em, hash = param req ''hash''\<rparr> (invitations w)\<rparr>))"
proof -
  obtain ps where ps: "u = JObj ps"
    using truthy_prop_is_object [OF em t] by blast
  have nd: "em \<noteq> JUndefined" using t by auto
  have rd: "(userRead None [(''email'', em)] w = None) =
            (\<forall>row\<in>set (users w). propOf row ''email'' \<noteq> em)"
    by (rule userRead_None_iff)
  have reg: "registerUser sv req w =
     (case getUserInvitation (param req ''hash'') em w of
        None \<Rightarrow> (Sent \<lparr>statusCode = 403, payload = Some (errorBody 403 ''Invalid hash'')\<rparr>, w)
      | Some invit \<Rightarrow>
          (case userRead None [(''email'', em)] w of
             Some usr \<Rightarrow>
               (Sent \<lparr>statusCode = 400, payload = Some (errorBody 400 ''Email is already taken'')\<rparr>, w)
           | None \<Rightarrow> (Sent \<lparr>statusCode = 204, payload = None\<rparr>,
                      snd (registerUser_create sv u pw invit w))))"
    using u em pw t ps by (simp add: registerUser_def Let_def resp_defs split: option.splits)
  show ?thesis
  proof (cases "userRead None [(''email'', em)] w")
    case None
    then show ?thesis
      using rd by (auto simp: reg getUserInvitation_email [OF nd] registerUser_create_def
          userSave_def cacheDelete_def deleteUserInvitation_def)
  next
    case (Some usr)
    then show ?thesis
      using rd by (auto simp: reg getUserInvitation_email [OF nd])
  qed
qed

section \<open>The claims\<close>

text \<open>
  Claim C1, as amended. A registration request whose user payload has a truthy email that
  some stored user (active or not) already owns is answered 400 ``Email is already taken''
  when the invitation store holds the invitation for the supplied hash and that email. When
  it does not, the answer is 403 ``Invalid hash'': the invitation is looked up before the
  owner of the email. Neither answer changes the stores.
\<close>

theorem registerUser_email_taken:
  assumes u: "getProp (body req) ''user'' = Inr u"
      and em: "getProp u ''email'' = Inr em"
      and pw: "getProp u ''password'' = Inr pw"
      and t: "truthy em"
      and owned: "\<exists>row\<in>set (users w). propOf row ''email'' = em"
  shows "registerUser sv req w =
     (if \<lparr>email = em, hash = param req ''hash''\<rparr> \<in> set (invitations w)
      then (Sent \<lparr>statusCode = 400, payload = Some (errorBody 400 ''Email is already taken'')\<rparr>, w)
      else (Sent \<lparr>statusCode = 403, payload = Some (errorBody 403 ''Invalid hash'')\<rparr>, w))"
  using owned by (simp add: registerUser_run [OF u em pw t])

theorem registerUser_email_taken_witness:
  "registerUser sv0 (reqWith ''uu'' (credentials ''a@x.com'' ''p2'')) w0 =
     (Sent \<lparr>statusCode = 400, payload = Some (errorBody 400 ''Email is already taken'')\<rparr>, w0)"
proof -
  let ?req = "reqWith ''uu'' (credentials ''a@x.com'' ''p2'')"
  let ?u = "JObj [(''email'', JStr ''a@x.com''), (''password'', JStr ''p2'')]"
  have u: "getProp (body ?req) ''user'' = Inr ?u"
    by (simp add: sample_defs propOf_def)
  have em: "getProp ?u ''email'' = Inr (JStr ''a@x.com'')"
    by (simp add: propOf_def)
  have pw: "getProp ?u ''password'' = Inr (JStr ''p2'')"
    by (simp add: propOf_def)
  have t: "truthy (JStr ''a@x.com'')" by simp
  have owned: "\<exists>row\<in>set (users w0). propOf row ''email'' = JStr ''a@x.com''"
    by (simp add: sample_defs propOf_def)
  show ?thesis
    using registerUser_email_taken [OF u em pw t owned, of sv0]
    by (simp add: sample_defs param_def)
qed

text \<open>
  Claim C1 as stated fails: \<open>alice\<close> owns \<^verbatim>\<open>a@x.com\<close>, the hash \<^verbatim>\<open>nope\<close> belongs to no
  invitation, and the answer is 403 ``Invalid hash'', not 400 ``Email is already taken''.
\<close>

theorem registerUser_email_taken_counterexample:
  "alice \<in> set (users w0) \<and> propOf alice ''email'' = JStr ''a@x.com'' \<and>
   registerUser sv0 (reqWith ''nope'' (credentials ''a@x.com'' ''p2'')) w0 =
     (Sent \<lparr>statusCode = 403, payload = Some (errorBody 403 ''Invalid hash'')\<rparr>, w0) \<and>
   fst (registerUser sv0 (reqWith ''nope'' (credentials ''a@x.com'' ''p2'')) w0) \<noteq>
     Sent \<lparr>statusCode = 400, payload = Some (errorBody 400 ''Email is already taken'')\<rparr>"
  by (simp add: sample_defs registerUser_def getUserInvitation_def readUserInvitation_def
        propOf_def param_def resp_defs errorBody_def)

text \<open>
  Claim C2, where the code departs from it. A registration request whose user payload is
  absent (\<^verbatim>\<open>undefined\<close> or \<^verbatim>\<open>null\<close>): the destructuring of \<^verbatim>\<open>req.body.user\<close> on
  line 105 raises a TypeError before the check \<^verbatim>\<open>!req.body.user\<close> on line 107 is reached,
  and the error goes to \<^verbatim>\<open>next(err)\<close>; no 400 is sent. The stores are untouched.
\<close>

theorem registerUser_missing_user:
  assumes "getProp (body req) ''user'' = Inr u" and "u = JUndefined \<or> u = JNull"
  shows "registerUser sv req w = (Next TypeError, w) \<and>
         fst (registerUser sv req w) \<noteq>
           Sent \<lparr>statusCode = 400, payload = Some (errorBody 400 ''Invalid request'')\<rparr>"
  using assms by (auto simp: registerUser_def)

text \<open>The body \<^verbatim>\<open>{}\<close> has no \<^verbatim>\<open>user\<close> property.\<close>

theorem registerUser_missing_user_witness:
  "getProp (body (reqWith ''u'' (JObj []))) ''user'' = Inr JUndefined \<and>
   registerUser sv0 (reqWith ''u'' (JObj [])) w0 = (Next TypeError, w0) \<and>
   fst (registerUser sv0 (reqWith ''u'' (JObj [])) w0) \<noteq>
     Sent \<lparr>statusCode = 400, payload = Some (errorBody 400 ''Invalid request'')\<rparr>"
proof -
  have h: "getProp (body (reqWith ''u'' (JObj []))) ''user'' = Inr JUndefined"
    by (simp add: reqWith_def propOf_def)
  show ?thesis
    using h registerUser_missing_user [OF h, of sv0 w0] by simp
qed

text \<open>The other half of the validation on line 107: a payload without a truthy email is
  answered 400 and leaves the stores as they were.\<close>

lemma registerUser_no_email:
  assumes "getProp (body req) ''user'' = Inr u" and "getProp u ''email'' = Inr em"
      and "\<not> truthy em"
  shows "registerUser sv req w =
     (Sent \<lparr>statusCode = 400, payload = Some (errorBody 400 ''Invalid request'')\<rparr>, w)"
  using assms by (cases u) (auto simp: registerUser_def Let_def resp_defs)

text \<open>
  Claim C3. A sign-in request with truthy email and password: when the user store returns an
  active user for the email and the password verifies against that user's stored password,
  the answer is 200 with the token created from the user's id and the selected columns of
  the user without the password; when no stored user is active with that email, or the
  password does not verify, the answer is 401 with the one message ``Wrong email or
  password''. The stores are unchanged in every case. The user the store returns is the
  active user with the email whenever only one row is active with it.
\<close>

theorem signinUser_credentials:
  assumes u: "getProp (body req) ''user'' = Inr u"
      and em: "getProp u ''email'' = Inr em"
      and pw: "getProp u ''password'' = Inr pw"
      and te: "truthy em"
      and tp: "truthy pw"
  shows
    "(\<forall>row. userRead None [(''email'', em), (''active'', JBool True)] w = Some row \<and>
            verifyPassword sv pw (propOf row ''password'') \<longrightarrow>
        row \<in> set (users w) \<and> propOf row ''email'' = em \<and> propOf row ''active'' = JBool True \<and>
        signinUser sv req w =
          (Sent \<lparr>statusCode = 200,
                 payload = Some (JObj
                   [(''status'', JNum 200),
                    (''data'', JObj
                       [(''user'', JObj (AList.delete ''password''
                           (project [''id'', ''email'', ''firstname'', ''lastname'', ''password''] row))),
                        (''token'', JStr (createToken sv (propOf row ''id'')))])])\<rparr>, w) \<and>
        map_of (AList.delete ''password''
          (project [''id'', ''email'', ''firstname'', ''lastname'', ''password''] row)) ''password'' = None) \<and>
     ((\<forall>row\<in>set (users w). propOf row ''email'' \<noteq> em \<or> propOf row ''active'' \<noteq> JBool True) \<longrightarrow>
        signinUser sv req w =
          (Sent \<lparr>statusCode = 401, payload = Some (errorBody 401 ''Wrong email or password'')\<rparr>, w)) \<and>
     (\<forall>row. userRead None [(''email'', em), (''active'', JBool True)] w = Some row \<and>
            \<not> verifyPassword sv pw (propOf row ''password'') \<longrightarrow>
        signinUser sv req w =
          (Sent \<lparr>statusCode = 401, payload = Some (errorBody 401 ''Wrong email or password'')\<rparr>, w)) \<and>
     (\<forall>row. row \<in> set (users w) \<and> propOf row ''email'' = em \<and>
            propOf row ''active'' = JBool True \<and>
            (\<forall>r\<in>set (users w).
               propOf r ''email'' = em \<and> propOf r ''active'' = JBool True \<longrightarrow> r = row) \<longrightarrow>
        userRead None [(''email'', em), (''active'', JBool True)] w = Some row)"
proof -
  let ?cols = "[''id'', ''email'', ''firstname'', ''lastname'', ''password'']"
  let ?flt = "[(''email'', em), (''active'', JBool True)]"
  have run: "signinUser sv req w =
     (case userRead None ?flt w of
        None \<Rightarrow>
          (Sent \<lparr>statusCode = 401, payload = Some (errorBody 401 ''Wrong email or password'')\<rparr>, w)
      | Some row \<Rightarrow>
          if \<not> verifyPassword sv pw (propOf row ''password'')
          then (Sent \<lparr>statusCode = 401,
                       payload = Some (errorBody 401 ''Wrong email or password'')\<rparr>, w)
          else (Sent \<lparr>statusCode = 200,
                 payload = Some (JObj
                   [(''status'', JNum 200),
                    (''data'', JObj
                       [(''user'', JObj (AList.delete ''password'' (project ?cols row))),
                        (''token'', JStr (createToken sv (propOf row ''id'')))])])\<rparr>, w))"
    using u em pw te tp
    by (simp add: signinUser_def userRead_select resp_defs propOf_project Let_def
          split: option.splits)
  have a: "\<And>row. map_of (AList.delete ''password'' (project ?cols row)) ''password'' = None"
    by (simp add: AList.delete_conv)
  show ?thesis
  proof (intro conjI allI impI)
    fix row
    assume h: "userRead None ?flt w = Some row \<and> verifyPassword sv pw (propOf row ''password'')"
    show "row \<in> set (users w)" "propOf row ''email'' = em" "propOf row ''active'' = JBool True"
      using userRead_active_Some [of em w row] h by simp_all
    show "signinUser sv req w =
          (Sent \<lparr>statusCode = 200,
                 payload = Some (JObj
                   [(''status'', JNum 200),
                    (''data'', JObj
                       [(''user'', JObj (AList.delete ''password'' (project ?cols row))),
                        (''token'', JStr (createToken sv (propOf row ''id'')))])])\<rparr>, w)"
      using h by (simp add: run)
    show "map_of (AList.delete ''password'' (project ?cols row)) ''password'' = None"
      by (rule a)
  next
    assume "\<forall>row\<in>set (users w). propOf row ''email'' \<noteq> em \<or> propOf row ''active'' \<noteq> JBool True"
    then have "userRead None ?flt w = None"
      by (simp add: userRead_active_None_iff)
    then show "signinUser sv req w =
          (Sent \<lparr>statusCode = 401, payload = Some (errorBody 401 ''Wrong email or password'')\<rparr>, w)"
      by (simp add: run)
  next
    fix row
    assume "userRead None ?flt w = Some row \<and> \<not> verifyPassword sv pw (propOf row ''password'')"
    then show "signinUser sv req w =
          (Sent \<lparr>statusCode = 401, payload = Some (errorBody 401 ''Wrong email or password'')\<rparr>, w)"
      by (simp add: run)
  next
    fix row
    assume "row \<in> set (users w) \<and> propOf row ''email'' = em \<and>
            propOf row ''active'' = JBool True \<and>
            (\<forall>r\<in>set (users w).
               propOf r ''email'' = em \<and> propOf r ''active'' = JBool True \<longrightarrow> r = row)"
    then show "userRead None ?flt w = Some row"
      using userRead_active_unique [of row w em] by blast
  qed
qed

theorem signinUser_credentials_witness:
  "signinUser sv0 (reqWith [] (credentials ''a@x.com'' ''p1'')) w0 =
     (Sent \<lparr>statusCode = 200,
            payload = Some (JObj
              [(''status'', JNum 200),
               (''data'', JObj
                  [(''user'', JObj [(''id'', JNum 2), (''email'', JStr ''a@x.com''),
                                    (''firstname'', JStr ''A''), (''lastname'', JStr ''X'')]),
                   (''token'', JStr ''tt'')])])\<rparr>, w0) \<and>
   signinUser sv0 (reqWith [] (credentials ''a@x.com'' ''p2'')) w0 =
     (Sent \<lparr>statusCode = 401, payload = Some (errorBody 401 ''Wrong email or password'')\<rparr>, w0) \<and>
   signinUser sv0 (reqWith [] (credentials ''c@x.com'' ''p1'')) w0 =
     (Sent \<lparr>statusCode = 401, payload = Some (errorBody 401 ''Wrong email or password'')\<rparr>, w0)"
proof -
  have rd: "userRead None [(''email'', JStr ''a@x.com''), (''active'', JBool True)] w0 = Some alice"
    by (simp add: userRead_def matches_def propOf_def w0_def alice_def)
  have ok: "verifyPassword sv0 (JStr ''p1'') (propOf alice ''password'')"
    by (simp add: sv0_def alice_def propOf_def)
  have bad: "\<not> verifyPassword sv0 (JStr ''p2'') (propOf alice ''password'')"
    by (simp add: sv0_def alice_def propOf_def)
  have none: "\<forall>row\<in>set (users w0).
      propOf row ''email'' \<noteq> JStr ''c@x.com'' \<or> propOf row ''active'' \<noteq> JBool True"
    by (simp add: w0_def alice_def propOf_def)
  have "signinUser sv0 (reqWith [] (credentials ''a@x.com'' ''p1'')) w0 =
     (Sent \<lparr>statusCode = 200,
            payload = Some (JObj
              [(''status'', JNum 200),
               (''data'', JObj
                  [(''user'', JObj (AList.delete ''password''
                      (project [''id'', ''email'', ''firstname'', ''lastname'', ''password''] alice))),
                   (''token'', JStr (createToken sv0 (propOf alice ''id'')))])])\<rparr>, w0)"
    using signinUser_credentials [OF credentials_user credentials_email credentials_password,
        of "''a@x.com''" "''p1''" w0 sv0 "[]", THEN conjunct1, rule_format, of alice] rd ok
    by simp
  then have one: "signinUser sv0 (reqWith [] (credentials ''a@x.com'' ''p1'')) w0 =
     (Sent \<lparr>statusCode = 200,
            payload = Some (JObj
              [(''status'', JNum 200),
               (''data'', JObj
                  [(''user'', JObj [(''id'', JNum 2), (''email'', JStr ''a@x.com''),
                                    (''firstname'', JStr ''A''), (''lastname'', JStr ''X'')]),
                   (''token'', JStr ''tt'')])])\<rparr>, w0)"
    by (simp add: project_def alice_def sv0_def propOf_def numeral_2_eq_2)
  have two: "signinUser sv0 (reqWith [] (credentials ''a@x.com'' ''p2'')) w0 =
     (Sent \<lparr>statusCode = 401, payload = Some (errorBody 401 ''Wrong email or password'')\<rparr>, w0)"
    using signinUser_credentials [OF credentials_user credentials_email credentials_password,
        of "''a@x.com''" "''p2''" w0 sv0 "[]", THEN conjunct2, THEN conjunct2, THEN conjunct1,
        rule_format, of alice] rd bad
    by simp
  have three: "signinUser sv0 (reqWith [] (credentials ''c@x.com'' ''p1'')) w0 =
     (Sent \<lparr>statusCode = 401, payload = Some (errorBody 401 ''Wrong email or password'')\<rparr>, w0)"
    using signinUser_credentials [OF credentials_user credentials_email credentials_password,
        of "''c@x.com''" "''p1''" w0 sv0 "[]", THEN conjunct2, THEN conjunct1] none
    by simp
  show ?thesis using one two three by simp
qed

text \<open>
  Claim C4. Starting where the invitation for the hash and the email exists and no user owns
  the email, a registration with a truthy email succeeds with 204 and deletes the invitation;
  the same request run again on the resulting state is answered 403 ``Invalid hash'' and
  changes nothing.
\<close>

theorem registerUser_twice:
  assumes u: "getProp (body req) ''user'' = Inr u"
      and em: "getProp u ''email'' = Inr em"
      and pw: "getProp u ''password'' = Inr pw"
      and t: "truthy em"
      and found: "\<lparr>email = em, hash = param req ''hash''\<rparr> \<in> set (invitations w)"
      and free: "\<forall>row\<in>set (users w). propOf row ''email'' \<noteq> em"
  shows "fst (registerUser sv req w) = Sent \<lparr>statusCode = 204, payload = None\<rparr> \<and>
         \<lparr>email = em, hash = param req ''hash''\<rparr> \<notin> set (invitations (snd (registerUser sv req w))) \<and>
         registerUser sv req (snd (registerUser sv req w)) =
           (Sent \<lparr>statusCode = 403, payload = Some (errorBody 403 ''Invalid hash'')\<rparr>,
            snd (registerUser sv req w))"
proof -
  let ?w1 = "snd (registerUser sv req w)"
  have first: "registerUser sv req w =
      (Sent \<lparr>statusCode = 204, payload = None\<rparr>,
       w\<lparr>users := users w @
            [AList.update ''userRole'' (JObj [(''id'', JNum 1), (''name'', JStr ''User'')])
               (AList.update ''password'' (JStr (hashPassword sv pw)) (spread u))],
         cache := AList.delete ''user'' (cache w),
         invitations := removeAll \<lparr>email = em, hash = param req ''hash''\<rparr> (invitations w)\<rparr>)"
    using found free by (simp add: registerUser_run [OF u em pw t])
  have gone: "\<lparr>email = em, hash = param req ''hash''\<rparr> \<notin> set (invitations ?w1)"
    by (simp add: first)
  have second: "registerUser sv req ?w1 =
      (Sent \<lparr>statusCode = 403, payload = Some (errorBody 403 ''Invalid hash'')\<rparr>, ?w1)"
    using gone by (simp add: registerUser_run [OF u em pw t])
  show ?thesis
    using first gone second by simp
qed

theorem registerUser_twice_witness:
  "fst (registerUser sv0 (reqWith ''u'' (credentials ''b@x.com'' ''p1'')) w0) =
     Sent \<lparr>statusCode = 204, payload = None\<rparr> \<and>
   fst (registerUser sv0 (reqWith ''u'' (credentials ''b@x.com'' ''p1''))
          (snd (registerUser sv0 (reqWith ''u'' (credentials ''b@x.com'' ''p1'')) w0))) =
     Sent \<lparr>statusCode = 403, payload = Some (errorBody 403 ''Invalid hash'')\<rparr>"
proof -
  have found: "\<lparr>email = JStr ''b@x.com'',
                hash = param (reqWith ''u'' (credentials ''b@x.com'' ''p1'')) ''hash''\<rparr>
               \<in> set (invitations w0)"
    by (simp add: w0_def reqWith_def param_def)
  have free: "\<forall>row\<in>set (users w0). propOf row ''email'' \<noteq> JStr ''b@x.com''"
    by (simp add: w0_def alice_def propOf_def)
  show ?thesis
    using registerUser_twice [OF credentials_user credentials_email credentials_password _ found free,
        of sv0]
    by simp
qed

text \<open>
  Claim C5. On the success path of registration (the invitation for the hash and the email is
  found, no user owns the email) the user payload is an object; the handler answers 204 with
  no body; the user store gains one user, the payload's properties with \<^verbatim>\<open>password\<close> set
  to the hashed password and \<^verbatim>\<open>userRole\<close> set to \<^verbatim>\<open>{ id: 1, name: 'User' }\<close> and every
  other property as supplied; the cache loses the key \<^verbatim>\<open>user\<close>; the object the handler
  holds afterwards is the saved user without its password; the invitation is deleted.
\<close>

theorem registerUser_success:
  assumes u: "getProp (body req) ''user'' = Inr u"
      and em: "getProp u ''email'' = Inr em"
      and pw: "getProp u ''password'' = Inr pw"
      and t: "truthy em"
      and found: "readUserInvitation (ByHashEmail (param req ''hash'') em) w = Some invit"
      and free: "\<forall>row\<in>set (users w). propOf row ''email'' \<noteq> em"
  shows
    "(let role = JObj [(''id'', JNum 1), (''name'', JStr ''User'')];
          newUser = AList.update ''userRole'' role
                      (AList.update ''password'' (JStr (hashPassword sv pw)) (spread u));
          w' = w\<lparr>users := users w @ [newUser],
                cache := AList.delete ''user'' (cache w),
                invitations := removeAll invit (invitations w)\<rparr>
      in u = JObj (spread u) \<and>
         registerUser sv req w = (Sent \<lparr>statusCode = 204, payload = None\<rparr>, w') \<and>
         propOf newUser ''password'' = JStr (hashPassword sv pw) \<and>
         propOf newUser ''userRole'' = role \<and>
         (\<forall>k. k \<noteq> ''password'' \<and> k \<noteq> ''userRole'' \<longrightarrow> propOf newUser k = propOf (spread u) k) \<and>
         registerUser_create sv u pw invit w = (AList.delete ''password'' newUser, w') \<and>
         propOf (AList.delete ''password'' newUser) ''password'' = JUndefined \<and>
         map_of (cache w') ''user'' = None \<and>
         invit \<notin> set (invitations w'))"
proof -
  obtain ps where ps: "u = JObj ps"
    using truthy_prop_is_object [OF em t] by blast
  have "find (invMatches (ByHashEmail (param req ''hash'') em)) (invitations w) = Some invit"
    using found by (simp add: readUserInvitation_def)
  from find_Some_set [OF this]
  have mem: "invit \<in> set (invitations w)" and eq: "invit = \<lparr>email = em, hash = param req ''hash''\<rparr>"
    by (auto intro: invitation_eq)
  have run: "registerUser sv req w =
      (Sent \<lparr>statusCode = 204, payload = None\<rparr>,
       w\<lparr>users := users w @
            [AList.update ''userRole'' (JObj [(''id'', JNum 1), (''name'', JStr ''User'')])
               (AList.update ''password'' (JStr (hashPassword sv pw)) (spread u))],
         cache := AList.delete ''user'' (cache w),
         invitations := removeAll invit (invitations w)\<rparr>)"
    using mem free unfolding eq by (simp add: registerUser_run [OF u em pw t])
  have create: "registerUser_create sv u pw invit w =
      (AList.delete ''password''
         (AList.update ''userRole'' (JObj [(''id'', JNum 1), (''name'', JStr ''User'')])
            (AList.update ''password'' (JStr (hashPassword sv pw)) (spread u))),
       w\<lparr>users := users w @
            [AList.update ''userRole'' (JObj [(''id'', JNum 1), (''name'', JStr ''User'')])
               (AList.update ''password'' (JStr (hashPassword sv pw)) (spread u))],
         cache := AList.delete ''user'' (cache w),
         invitations := removeAll invit (invitations w)\<rparr>)"
    by (simp add: registerUser_create_def userSave_def cacheDelete_def deleteUserInvitation_def)
  show ?thesis
    unfolding Let_def
  proof (intro conjI allI impI)
    show "u = JObj (spread u)" by (simp add: ps)
    show "registerUser sv req w =
      (Sent \<lparr>statusCode = 204, payload = None\<rparr>,
       w\<lparr>users := users w @
            [AList.update ''userRole'' (JObj [(''id'', JNum 1), (''name'', JStr ''User'')])
               (AList.update ''password'' (JStr (hashPassword sv pw)) (spread u))],
         cache := AList.delete ''user'' (cache w),
         invitations := removeAll invit (invitations w)\<rparr>)"
      by (rule run)
    show "registerUser_create sv u pw invit w =
      (AList.delete ''password''
         (AList.update ''userRole'' (JObj [(''id'', JNum 1), (''name'', JStr ''User'')])
            (AList.update ''password'' (JStr (hashPassword sv pw)) (spread u))),
       w\<lparr>users := users w @
            [AList.update ''userRole'' (JObj [(''id'', JNum 1), (''name'', JStr ''User'')])
               (AList.update ''password'' (JStr (hashPassword sv pw)) (spread u))],
         cache := AList.delete ''user'' (cache w),
         invitations := removeAll invit (invitations w)\<rparr>)"
      by (rule create)
  qed (simp_all add: propOf_def AList.update_conv AList.delete_conv)
qed

theorem registerUser_success_witness:
  "registerUser sv0 (reqWith ''u'' (credentials ''b@x.com'' ''p1'')) w0 =
     (Sent \<lparr>statusCode = 204, payload = None\<rparr>,
      \<lparr>users = [alice, [(''email'', JStr ''b@x.com''), (''password'', JStr ''bcryptp1''),
                        (''userRole'', JObj [(''id'', JNum 1), (''name'', JStr ''User'')])]],
       invitations = [\<lparr>email = JStr ''a@x.com'', hash = JStr ''uu''\<rparr>],
       cache = [],
       outbox = [(JStr ''b@x.com'', JStr ''u''), (JStr ''a@x.com'', JStr ''uu'')],
       uuidCount = 2\<rparr>)"
proof -
  have found: "readUserInvitation
      (ByHashEmail (param (reqWith ''u'' (credentials ''b@x.com'' ''p1'')) ''hash'') (JStr ''b@x.com''))
      w0 = Some \<lparr>email = JStr ''b@x.com'', hash = JStr ''u''\<rparr>"
    by (simp add: readUserInvitation_def w0_def reqWith_def param_def)
  have free: "\<forall>row\<in>set (users w0). propOf row ''email'' \<noteq> JStr ''b@x.com''"
    by (simp add: w0_def alice_def propOf_def)
  show ?thesis
    using registerUser_success [OF credentials_user credentials_email credentials_password _ found free,
        of sv0]
    by (simp add: Let_def w0_def sv0_def)
qed




text \<open>
  Claim C7. An unregistration request whose principal has a truthy email: when no stored user
  has the email the answer is 404 ``User not found'' and the state is unchanged; when the
  store returns a user for the email, that user is removed from the store, the cache loses
  the key \<^verbatim>\<open>user\<close>, and the answer is 204.
\<close>

theorem unregisterUser_cases:
  assumes em: "getProp (user req) ''email'' = Inr em" and t: "truthy em"
  shows "((\<forall>row\<in>set (users w). propOf row ''email'' \<noteq> em) \<longrightarrow>
            unregisterUser sv req w =
              (Sent \<lparr>statusCode = 404, payload = Some (errorBody 404 ''User not found'')\<rparr>, w)) \<and>
         (\<forall>usr. userRead None [(''email'', em)] w = Some usr \<longrightarrow>
            usr \<in> set (users w) \<and> propOf usr ''email'' = em \<and>
            unregisterUser sv req w =
              (Sent \<lparr>statusCode = 204, payload = None\<rparr>,
               w\<lparr>users := removeAll usr (users w), cache := AList.delete ''user'' (cache w)\<rparr>) \<and>
            usr \<notin> set (users (snd (unregisterUser sv req w))) \<and>
            map_of (cache (snd (unregisterUser sv req w))) ''user'' = None)"
proof (intro conjI allI impI)
  assume "\<forall>row\<in>set (users w). propOf row ''email'' \<noteq> em"
  then have "userRead None [(''email'', em)] w = None"
    by (simp add: userRead_None_iff)
  then show "unregisterUser sv req w =
      (Sent \<lparr>statusCode = 404, payload = Some (errorBody 404 ''User not found'')\<rparr>, w)"
    using em t by (simp add: unregisterUser_def resp_defs)
next
  fix usr assume r: "userRead None [(''email'', em)] w = Some usr"
  show "usr \<in> set (users w)" using userRead_email_Some [OF r] by simp
  show "propOf usr ''email'' = em" using userRead_email_Some [OF r] by simp
  show run: "unregisterUser sv req w =
      (Sent \<lparr>statusCode = 204, payload = None\<rparr>,
       w\<lparr>users := removeAll usr (users w), cache := AList.delete ''user'' (cache w)\<rparr>)"
    using em t r by (simp add: unregisterUser_def resp_defs cacheDelete_def userDelete_def)
  show "usr \<notin> set (users (snd (unregisterUser sv req w)))"
    by (simp add: run)
  show "map_of (cache (snd (unregisterUser sv req w))) ''user'' = None"
    by (simp add: run AList.delete_conv)
qed

theorem unregisterUser_cases_witness:
  "unregisterUser sv0 \<lparr>params = [], body = JUndefined, user = JObj alice\<rparr> w0 =
     (Sent \<lparr>statusCode = 204, payload = None\<rparr>, w0\<lparr>users := [], cache := []\<rparr>) \<and>
   unregisterUser sv0
       \<lparr>params = [], body = JUndefined, user = JObj [(''email'', JStr ''c@x.com'')]\<rparr> w0 =
     (Sent \<lparr>statusCode = 404, payload = Some (errorBody 404 ''User not found'')\<rparr>, w0)"
proof -
  let ?ra = "\<lparr>params = [], body = JUndefined, user = JObj alice\<rparr>"
  let ?rc = "\<lparr>params = [], body = JUndefined, user = JObj [(''email'', JStr ''c@x.com'')]\<rparr>"
  have ea: "getProp (user ?ra) ''email'' = Inr (JStr ''a@x.com'')"
    by (simp add: alice_def propOf_def)
  have ec: "getProp (user ?rc) ''email'' = Inr (JStr ''c@x.com'')"
    by (simp add: propOf_def)
  have rd: "userRead None [(''email'', JStr ''a@x.com'')] w0 = Some alice"
    by (simp add: userRead_def matches_def propOf_def w0_def alice_def)
  have none: "\<forall>row\<in>set (users w0). propOf row ''email'' \<noteq> JStr ''c@x.com''"
    by (simp add: w0_def alice_def propOf_def)
  have "unregisterUser sv0 ?ra w0 =
     (Sent \<lparr>statusCode = 204, payload = None\<rparr>,
      w0\<lparr>users := removeAll alice (users w0), cache := AList.delete ''user'' (cache w0)\<rparr>)"
    using unregisterUser_cases [OF ea, of w0 sv0] rd by simp
  moreover have "unregisterUser sv0 ?rc w0 =
     (Sent \<lparr>statusCode = 404, payload = Some (errorBody 404 ''User not found'')\<rparr>, w0)"
    using unregisterUser_cases [OF ec, of w0 sv0] none by simp
  ultimately show ?thesis
    by (simp add: w0_def)
qed

text \<open>
  Claim C8. An invitation-hash-validation request: a missing or empty hash is answered 400;
  otherwise the invitation store is searched by the hash alone, and the answer is 204 with no
  body when some invitation has the hash and 403 ``Invalid hash'' when none has. The state is
  unchanged in every case.
\<close>

theorem validateRegistrationHash_cases:
  "validateRegistrationHash sv req w =
     (if \<not> truthy (param req ''hash'')
      then (Sent \<lparr>statusCode = 400, payload = Some (errorBody 400 ''Invalid request'')\<rparr>, w)
      else if \<exists>i\<in>set (invitations w). hash i = param req ''hash''
      then (Sent \<lparr>statusCode = 204, payload = None\<rparr>, w)
      else (Sent \<lparr>statusCode = 403, payload = Some (errorBody 403 ''Invalid hash'')\<rparr>, w))"
proof -
  have "(getUserInvitation (param req ''hash'') JUndefined w = None) =
        (\<forall>i\<in>set (invitations w). hash i \<noteq> param req ''hash'')"
    by (rule getUserInvitation_hash)
  then show ?thesis
    by (auto simp: validateRegistrationHash_def Let_def resp_defs split: option.splits)
qed

theorem validateRegistrationHash_cases_witness:
  "validateRegistrationHash sv0 (reqWith ''uu'' JUndefined) w0 =
     (Sent \<lparr>statusCode = 204, payload = None\<rparr>, w0) \<and>
   validateRegistrationHash sv0 (reqWith ''nope'' JUndefined) w0 =
     (Sent \<lparr>statusCode = 403, payload = Some (errorBody 403 ''Invalid hash'')\<rparr>, w0) \<and>
   validateRegistrationHash sv0 (reqWith [] JUndefined) w0 =
     (Sent \<lparr>statusCode = 400, payload = Some (errorBody 400 ''Invalid request'')\<rparr>, w0)"
  using validateRegistrationHash_cases [of sv0 "reqWith ''uu'' JUndefined" w0]
    validateRegistrationHash_cases [of sv0 "reqWith ''nope'' JUndefined" w0]
    validateRegistrationHash_cases [of sv0 "reqWith [] JUndefined" w0]
  by (simp add: reqWith_def param_def w0_def)

text \<open>
  Claim C9. Whatever the request, the OAuth authorize handler answers 200 with a JSON body
  whose \<^verbatim>\<open>data\<close> is the GitHub authorization endpoint followed by a query string; the
  query string is the escaped client id and scope, and parses to exactly the parameters
  \<^verbatim>\<open>client_id\<close>, the configured id, and \<^verbatim>\<open>scope\<close>, \<^verbatim>\<open>user:email\<close>. The answer is a
  body, not a redirect, and the state is unchanged.
\<close>

theorem handleGitHubAuth_url:
  "handleGitHubAuth sv req w =
     (Sent \<lparr>statusCode = 200,
            payload = Some (JObj
              [(''data'', JStr (''https://github.com/login/oauth/authorize?'' @
                               ''client_id='' @ escape (githubId sv) @ ''&scope=user%3Aemail'')),
               (''status'', JNum 200)])\<rparr>, w) \<and>
   parse (''client_id='' @ escape (githubId sv) @ ''&scope=user%3Aemail'') =
     [(''client_id'', githubId sv), (''scope'', ''user:email'')]"
proof -
  have q: "stringify [(''client_id'', githubId sv), (''scope'', ''user:email'')] =
           ''client_id='' @ escape (githubId sv) @ ''&scope=user%3Aemail''"
    by (simp add: escape_client_id escape_scope escape_user_email)
  have "parse (stringify [(''client_id'', githubId sv), (''scope'', ''user:email'')]) =
        [(''client_id'', githubId sv), (''scope'', ''user:email'')]"
    by (rule parse_stringify)
  then have p: "parse (''client_id='' @ escape (githubId sv) @ ''&scope=user%3Aemail'') =
        [(''client_id'', githubId sv), (''scope'', ''user:email'')]"
    by (simp only: q)
  have "handleGitHubAuth sv req w =
     (Sent \<lparr>statusCode = 200,
            payload = Some (JObj
              [(''data'', JStr (''https://github.com/login/oauth/authorize?'' @
                  stringify [(''client_id'', githubId sv), (''scope'', ''user:email'')])),
               (''status'', JNum 200)])\<rparr>, w)"
    by (simp add: handleGitHubAuth_def resp_defs)
  then show ?thesis
    using p by (simp only: q)
qed

theorem handleGitHubAuth_url_witness:
  "handleGitHubAuth sv0 (reqWith [] (JObj [(''scope'', JStr ''repo'')])) w0 =
     (Sent \<lparr>statusCode = 200,
            payload = Some (JObj
              [(''data'', JStr ''https://github.com/login/oauth/authorize?client_id=Iv1.9f&scope=user%3Aemail''),
               (''status'', JNum 200)])\<rparr>, w0)"
proof -
  have "escape (githubId sv0) = ''Iv1.9f''"
    unfolding sv0_def by code_simp
  then show ?thesis
    using handleGitHubAuth_url [of sv0 "reqWith [] (JObj [(''scope'', JStr ''repo'')])" w0]
    by simp
qed

text \<open>
  Claim C10. A sign-in request whose body has no \<^verbatim>\<open>user\<close> property: destructuring the
  \<^verbatim>\<open>undefined\<close> payload raises a TypeError before the check of the fields, the handler
  hands that error to \<^verbatim>\<open>next(err)\<close>, no 400 ``Invalid request'' is sent, and the state
  of the collaborators is unchanged.
\<close>

theorem signinUser_missing_user:
  assumes "getProp (body req) ''user'' = Inr JUndefined"
  shows "getProp JUndefined ''email'' = Inl TypeError \<and>
         signinUser sv req w = (Next TypeError, w) \<and>
         fst (signinUser sv req w) \<noteq>
           Sent \<lparr>statusCode = 400, payload = Some (errorBody 400 ''Invalid request'')\<rparr>"
  using assms by (simp add: signinUser_def)

theorem signinUser_missing_user_witness:
  "getProp (body (reqWith [] (JObj []))) ''user'' = Inr JUndefined \<and>
   signinUser sv0 (reqWith [] (JObj [])) w0 = (Next TypeError, w0)"
proof -
  have h: "getProp (body (reqWith [] (JObj []))) ''user'' = Inr JUndefined"
    by (simp add: reqWith_def propOf_def)
  show ?thesis
    using h signinUser_missing_user [OF h, of sv0 w0] by simp
qed

end
